theory Spec2Isabelle
  imports Main
begin

section \<open>Python values and failures\<close>

text \<open>
  The module raises through library calls only, apart from one explicit
  \<^verbatim>\<open>raise ValueError\<close>. Each raise is a constructor:
  \<^item> \<open>SubstringNotFound\<close>: the ValueError of \<^verbatim>\<open>str.index\<close> on an absent symbol;
  \<^item> \<open>ZeroDivisionError\<close>: \<^verbatim>\<open>% n\<close> with \<^verbatim>\<open>n == 0\<close>;
  \<^item> \<open>IndexError\<close>: an index out of range (\<^verbatim>\<open>alphabet[0]\<close>, \<^verbatim>\<open>alphabet[-c]\<close>,
    \<^verbatim>\<open>sorted(x, key=len)[-1]\<close>, \<^verbatim>\<open>random.choice\<close> of an empty sequence);
  \<^item> \<open>NeedPhoneNumber\<close>: the ValueError raised by \<^verbatim>\<open>_get_phone_number\<close>;
  \<^item> \<open>TypeError\<close>: \<^verbatim>\<open>len(...)\<close> of a cell that holds no string (a missing value);
  \<^item> \<open>EmptySample\<close>: the ValueError of \<^verbatim>\<open>DataFrame.sample()\<close> on a frame with no rows;
  \<^item> \<open>NoObjectsToConcatenate\<close>: the ValueError of \<^verbatim>\<open>pd.concat([])\<close>.
\<close>

datatype error =
    SubstringNotFound
  | ZeroDivisionError
  | IndexError
  | NeedPhoneNumber
  | TypeError
  | EmptySample
  | NoObjectsToConcatenate

text \<open>\<^verbatim>\<open>xs[i]\<close> for a Python integer \<open>i\<close>: a negative index counts from the end.\<close>

definition py_index :: "'a list \<Rightarrow> int \<Rightarrow> error + 'a" where
  "py_index xs i =
     (if 0 \<le> i \<and> i < int (length xs) then Inr (xs ! nat i)
      else if i < 0 \<and> - int (length xs) \<le> i then Inr (xs ! nat (int (length xs) + i))
      else Inl IndexError)"

text \<open>\<^verbatim>\<open>xs[i:]\<close>: a negative start counts from the end and is clamped at the front.\<close>

definition py_slice_from :: "int \<Rightarrow> 'a list \<Rightarrow> 'a list" where
  "py_slice_from i xs =
     (if i < 0 then drop (nat (int (length xs) + i)) xs else drop (nat i) xs)"

text \<open>\<^verbatim>\<open>xs[::2]\<close>; \<^verbatim>\<open>xs[1::2]\<close> is \<open>slice2 (drop 1 xs)\<close>.\<close>

fun slice2 :: "'a list \<Rightarrow> 'a list" where
  "slice2 [] = []"
| "slice2 [x] = [x]"
| "slice2 (x # y # xs) = x # slice2 xs"

text \<open>\<^verbatim>\<open>alphabet.index(c)\<close> for a one-character \<open>c\<close>: the first position, or ValueError.\<close>

fun str_index :: "string \<Rightarrow> char \<Rightarrow> error + nat" where
  "str_index [] c = Inl SubstringNotFound"
| "str_index (a # as) c =
     (if a = c then Inr 0
      else (case str_index as c of Inl e \<Rightarrow> Inl e | Inr i \<Rightarrow> Inr (Suc i)))"

text \<open>\<^verbatim>\<open>tuple(alphabet.index(i) for i in cs)\<close>: the first absent symbol raises.\<close>

fun indices :: "string \<Rightarrow> string \<Rightarrow> error + nat list" where
  "indices alphabet [] = Inr []"
| "indices alphabet (c # cs) =
     (case str_index alphabet c of
        Inl e \<Rightarrow> Inl e
      | Inr i \<Rightarrow> (case indices alphabet cs of Inl e \<Rightarrow> Inl e | Inr js \<Rightarrow> Inr (i # js)))"

section \<open>The checksum engine\<close>

definition default_alphabet :: string where
  "default_alphabet = ''0123456789''"

text \<open>
  \<^verbatim>\<open>
  def checksum(number, alphabet="0123456789"):
      n = len(alphabet)
      number = tuple(alphabet.index(i) for i in reversed(str(number)))
      return (sum(number[::2]) + sum(sum(divmod(i * 2, n)) for i in number[1::2])) % n
  \<close>
  The tuple is built first, so an absent symbol raises before any division. With an
  empty alphabet the tuple can only be built from the empty number, and then the only
  division is the final \<^verbatim>\<open>% n\<close>.
\<close>

definition checksum :: "string \<Rightarrow> string \<Rightarrow> error + nat" where
  "checksum number alphabet =
     (let n = length alphabet in
      case indices alphabet (rev number) of
        Inl e \<Rightarrow> Inl e
      | Inr num \<Rightarrow>
          if n = 0 then Inl ZeroDivisionError
          else Inr ((sum_list (slice2 num)
                     + sum_list (map (\<lambda>i. (i * 2) div n + (i * 2) mod n) (slice2 (drop 1 num))))
                    mod n))"

text \<open>
  \<^verbatim>\<open>
  def calc_check_digit(number, alphabet="0123456789"):
      check_digit = checksum(number + alphabet[0])
      return alphabet[-check_digit]
  \<close>
  The call of \<^verbatim>\<open>checksum\<close> passes no alphabet: the sum is always taken over the
  default decimal alphabet, whatever \<^verbatim>\<open>alphabet\<close> is. The result is a string of one
  character.
\<close>

definition calc_check_digit :: "string \<Rightarrow> string \<Rightarrow> error + string" where
  "calc_check_digit number alphabet =
     (case py_index alphabet 0 of
        Inl e \<Rightarrow> Inl e
      | Inr a0 \<Rightarrow>
          (case checksum (number @ [a0]) default_alphabet of
             Inl e \<Rightarrow> Inl e
           | Inr check_digit \<Rightarrow>
               (case py_index alphabet (- int check_digit) of
                  Inl e \<Rightarrow> Inl e
                | Inr c \<Rightarrow> Inr [c])))"

section \<open>Text helpers of the synthesizer\<close>

text \<open>
  Strings are lists of 8-bit characters. Python's \<^verbatim>\<open>\D\<close> on a \<^verbatim>\<open>str\<close> keeps every
  Unicode decimal digit; among the code points below 256 these are \<^verbatim>\<open>0\<close> to \<^verbatim>\<open>9\<close>.
  \<open>strip_non_digits\<close> is \<^verbatim>\<open>re.sub(r"\D+", "", s)\<close>.
\<close>

definition isdigit :: "char \<Rightarrow> bool" where
  "isdigit c = (c \<in> set ''0123456789'')"

definition strip_non_digits :: "string \<Rightarrow> string" where
  "strip_non_digits s = filter isdigit s"

text \<open>\<^verbatim>\<open>s.zfill(width)\<close>: zeros go after a leading sign.\<close>

definition zfill :: "nat \<Rightarrow> string \<Rightarrow> string" where
  "zfill width s =
     (if width \<le> length s then s
      else (case s of
              [] \<Rightarrow> replicate width (CHR ''0'')
            | c # rest \<Rightarrow>
                if c = CHR ''+'' \<or> c = CHR ''-''
                then c # replicate (width - length s) (CHR ''0'') @ rest
                else replicate (width - length s) (CHR ''0'') @ s))"

text \<open>\<^verbatim>\<open>str(n)\<close> and \<^verbatim>\<open>"%x" % n\<close> for an integer \<open>n \<ge> 0\<close>.\<close>

fun str_nat :: "nat \<Rightarrow> string" where
  "str_nat n =
     (if n < 10 then [''0123456789'' ! n]
      else str_nat (n div 10) @ [''0123456789'' ! (n mod 10)])"

fun hex_nat :: "nat \<Rightarrow> string" where
  "hex_nat n =
     (if n < 16 then [''0123456789abcdef'' ! n]
      else hex_nat (n div 16) @ [''0123456789abcdef'' ! (n mod 16)])"

text \<open>\<^verbatim>\<open>"%02x" % n\<close>: at least two characters, padded with zeros on the left.\<close>

definition fmt_02x :: "nat \<Rightarrow> string" where
  "fmt_02x n = replicate (2 - length (hex_nat n)) (CHR ''0'') @ hex_nat n"

text \<open>
  \<^verbatim>\<open>s.upper()\<close> on ASCII text: the 26 lower-case letters change, every other ASCII
  character stays. (Outside ASCII Python's \<^verbatim>\<open>upper\<close> can change the length or leave
  the 8-bit range; the properties below that depend on \<open>upper\<close> are stated for
  prefixes made of hexadecimal digits and colons.)
\<close>

definition upper_char :: "char \<Rightarrow> char" where
  "upper_char c =
     (case map_of (zip ''abcdefghijklmnopqrstuvwxyz'' ''ABCDEFGHIJKLMNOPQRSTUVWXYZ'') c of
        None \<Rightarrow> c
      | Some u \<Rightarrow> u)"

definition upper :: "string \<Rightarrow> string" where
  "upper s = map upper_char s"

section \<open>The random source and the reference tables\<close>

text \<open>
  The module draws from the process-wide generator. One attempt at a record consumes
  one \<open>draw\<close>: a raw natural number for each call of the generator, which the model
  reduces into the range the call guarantees (\<^verbatim>\<open>random.choice(xs)\<close> is
  \<open>xs ! (r mod length xs)\<close>, \<^verbatim>\<open>random.randint(0, 999999)\<close> is \<open>r mod 1000000\<close>,
  \<^verbatim>\<open>random.randint(0, 255)\<close> is \<open>r mod 256\<close>, \<^verbatim>\<open>df.sample()\<close> is the row
  \<open>r mod length rows\<close>). Every value a call can return is reached by some draw, and no
  other.
\<close>

record draw =
  fragment_draw :: "nat \<Rightarrow> nat"
  device_draw :: nat
  operator_draw :: nat
  imei_draw :: nat
  octet1_draw :: nat
  octet2_draw :: nat
  octet3_draw :: nat

text \<open>
  The rows of the two pickled tables, with the columns the module reads. The module
  converts every cell but one with \<^verbatim>\<open>str(...)\<close> before it uses it, and such a field
  holds that text (a missing value is then the text \<^verbatim>\<open>nan\<close>). The MAC prefix is
  measured with \<^verbatim>\<open>len(...)\<close> as the cell is: the field is \<open>Some\<close> of the string in
  the cell, or \<open>None\<close> for a missing value, on which \<^verbatim>\<open>len\<close> raises TypeError. The
  remaining columns are carried into the result unread.
\<close>

record device_row =
  bb_tac1 :: string
  bb_mac_prefix :: "string option"

record operator_row =
  aa_country :: string
  aa_network :: string
  aa_mcc :: string
  aa_mnc :: string
  aa_line :: string
  aa_iso :: string

definition random_choice :: "nat \<Rightarrow> 'a list \<Rightarrow> error + 'a" where
  "random_choice r xs = (if xs = [] then Inl IndexError else Inr (xs ! (r mod length xs)))"

definition sample :: "'a list \<Rightarrow> nat \<Rightarrow> error + 'a" where
  "sample rows r = (if rows = [] then Inl EmptySample else Inr (rows ! (r mod length rows)))"

section \<open>The synthesizer\<close>

record random_phone =
  country :: string
  phone_format_without_country :: "string list list"
  df :: "device_row list"
  df2 :: "operator_row list"

text \<open>
  \<^verbatim>\<open>[len(sorted(x, key=len)[-1]) for x in self.phone_format_without_country]\<close>:
  an empty chunk raises IndexError.
\<close>

fun longest_lengths :: "string list list \<Rightarrow> error + nat list" where
  "longest_lengths [] = Inr []"
| "longest_lengths (x # xs) =
     (case py_index (sort_key length x) (- 1) of
        Inl e \<Rightarrow> Inl e
      | Inr y \<Rightarrow>
          (case longest_lengths xs of Inl e \<Rightarrow> Inl e | Inr ws \<Rightarrow> Inr (length y # ws)))"

text \<open>
  \<^verbatim>\<open>RandomPhone.__init__\<close>. The format is given as the texts \<^verbatim>\<open>str(y)\<close> of its
  fragments. The two tables are what \<^verbatim>\<open>pd.read_pickle\<close> loads; \<open>contains\<close> is the
  case-insensitive regular-expression search of
  \<^verbatim>\<open>Series.str.contains(country, regex=True, na=False, flags=re.I)\<close>.
\<close>

definition RandomPhone_init ::
  "(string \<Rightarrow> string \<Rightarrow> bool) \<Rightarrow> device_row list \<Rightarrow> operator_row list
     \<Rightarrow> string \<Rightarrow> string list list \<Rightarrow> error + random_phone" where
  "RandomPhone_init contains phoneswithtac phonecodescountry ctry fmt =
     (case longest_lengths fmt of
        Inl e \<Rightarrow> Inl e
      | Inr phone_format_without_countrytmp \<Rightarrow>
          Inr \<lparr> country = ctry,
                phone_format_without_country =
                  map (\<lambda>(ini, x). map (zfill (phone_format_without_countrytmp ! ini)) x)
                    (enumerate 0 fmt),
                df = phoneswithtac,
                df2 = filter (\<lambda>r. contains ctry (aa_country r)) phonecodescountry \<rparr>)"

text \<open>Python's truth value of \<^verbatim>\<open>phonenumber\<close>: \<^verbatim>\<open>None\<close> and \<^verbatim>\<open>""\<close> are false.\<close>

definition truthy :: "string option \<Rightarrow> bool" where
  "truthy p = (case p of None \<Rightarrow> False | Some s \<Rightarrow> s \<noteq> [])"

text \<open>The loop of \<^verbatim>\<open>_get_phone_number\<close>: one \<^verbatim>\<open>random.choice\<close> for each chunk, in order.\<close>

fun choose_fragments :: "(nat \<Rightarrow> nat) \<Rightarrow> nat \<Rightarrow> string list list \<Rightarrow> error + string list" where
  "choose_fragments rnd i [] = Inr []"
| "choose_fragments rnd i (chunks # rest) =
     (case random_choice (rnd i) chunks of
        Inl e \<Rightarrow> Inl e
      | Inr f \<Rightarrow>
          (case choose_fragments rnd (Suc i) rest of
             Inl e \<Rightarrow> Inl e
           | Inr fs \<Rightarrow> Inr (f # fs)))"

text \<open>\<^verbatim>\<open>RandomPhone._get_phone_number\<close> (a name cannot start with an underscore).\<close>

definition priv_get_phone_number :: "random_phone \<Rightarrow> string option \<Rightarrow> draw \<Rightarrow> error + string" where
  "priv_get_phone_number self phonenumber d =
     (if truthy phonenumber then Inr (strip_non_digits (the phonenumber))
      else if phone_format_without_country self \<noteq> [] then
        (case choose_fragments (fragment_draw d) 0 (phone_format_without_country self) of
           Inl e \<Rightarrow> Inl e
         | Inr formatedphone \<Rightarrow> Inr (strip_non_digits (concat formatedphone)))
      else Inl NeedPhoneNumber)"

text \<open>The derived fields of \<^verbatim>\<open>_get_phone_data\<close>, each the expression of the source.\<close>

definition imsi_of :: "string \<Rightarrow> string \<Rightarrow> string \<Rightarrow> string" where
  "imsi_of mcc mnc phonenumber = take 15 (mcc @ mnc @ phonenumber)"

definition imei_body :: "string \<Rightarrow> nat \<Rightarrow> string" where
  "imei_body tac r = take 14 (tac @ zfill 6 (str_nat (r mod 1000000)))"

definition iccid_body :: "string \<Rightarrow> string \<Rightarrow> string \<Rightarrow> string" where
  "iccid_body line mnc phonenumber =
     take 19 (''89'' @ take 6 (line @ replicate 6 (CHR ''0'')) @ mnc
              @ take 10 (phonenumber @ replicate 12 (CHR ''0'')))"

definition random_octets :: "nat \<Rightarrow> nat \<Rightarrow> nat \<Rightarrow> string" where
  "random_octets r1 r2 r3 =
     '':'' @ fmt_02x (r1 mod 256) @ '':'' @ fmt_02x (r2 mod 256) @ '':'' @ fmt_02x (r3 mod 256)"

definition macaddress_of :: "string \<Rightarrow> nat \<Rightarrow> nat \<Rightarrow> nat \<Rightarrow> string" where
  "macaddress_of macaddressprefix r1 r2 r3 =
     (let totallen = 17;
          macaddressprefixlen = totallen - int (length macaddressprefix)
      in upper (macaddressprefix @ py_slice_from (- macaddressprefixlen) (random_octets r1 r2 r3)))"

text \<open>
  The result of one attempt: the one-row frame of the device row, the derived columns
  and the operator row.
\<close>

record identity =
  device :: device_row
  cc_imsi :: string
  cc_imei :: string
  cc_iccid :: string
  cc_macaddress :: string
  cc_phone_number :: string
  operator :: operator_row

text \<open>
  \<^verbatim>\<open>RandomPhone._get_phone_data\<close>, in the order the source evaluates: the phone
  number, the two samples, the two check digits, then the length of the MAC prefix.
\<close>

definition priv_get_phone_data :: "random_phone \<Rightarrow> string option \<Rightarrow> draw \<Rightarrow> error + identity" where
  "priv_get_phone_data self phonenumber0 d =
     (case priv_get_phone_number self phonenumber0 d of
        Inl e \<Rightarrow> Inl e
      | Inr phonenumber \<Rightarrow>
     (case sample (df self) (device_draw d) of
        Inl e \<Rightarrow> Inl e
      | Inr sa2 \<Rightarrow>
     (case sample (df2 self) (operator_draw d) of
        Inl e \<Rightarrow> Inl e
      | Inr sa \<Rightarrow>
     (case calc_check_digit (imei_body (bb_tac1 sa2) (imei_draw d)) default_alphabet of
        Inl e \<Rightarrow> Inl e
      | Inr checknumberimei \<Rightarrow>
     (case calc_check_digit (iccid_body (aa_line sa) (aa_mnc sa) phonenumber) default_alphabet of
        Inl e \<Rightarrow> Inl e
      | Inr checknumbericcid \<Rightarrow>
     (case bb_mac_prefix sa2 of
        None \<Rightarrow> Inl TypeError
      | Some macaddressprefix \<Rightarrow>
          Inr \<lparr> device = sa2,
                cc_imsi = imsi_of (aa_mcc sa) (aa_mnc sa) phonenumber,
                cc_imei = imei_body (bb_tac1 sa2) (imei_draw d) @ checknumberimei,
                cc_iccid = iccid_body (aa_line sa) (aa_mnc sa) phonenumber @ checknumbericcid,
                cc_macaddress =
                  macaddress_of macaddressprefix (octet1_draw d) (octet2_draw d) (octet3_draw d),
                cc_phone_number = aa_line sa @ phonenumber,
                operator = sa \<rparr>))))))"

text \<open>
  \<^verbatim>\<open>
  allresults = []
  while len(allresults) < qty:
      try:
          allresults.append(self._get_phone_data(phonenumber=phonenumber))
      except Exception:
          continue
  \<close>
  Every attempt takes the next draw; a failed attempt is dropped and the loop goes on.
  Nothing bounds the number of attempts, so the loop is run on a finite list of draws
  and \<open>None\<close> says that the draws ran out before the loop ended.
\<close>

fun collect :: "random_phone \<Rightarrow> string option \<Rightarrow> int \<Rightarrow> identity list \<Rightarrow> draw list
                  \<Rightarrow> identity list option" where
  "collect self phonenumber qty allresults [] =
     (if int (length allresults) < qty then None else Some allresults)"
| "collect self phonenumber qty allresults (d # ds) =
     (if int (length allresults) < qty then
        (case priv_get_phone_data self phonenumber d of
           Inl e \<Rightarrow> collect self phonenumber qty allresults ds
         | Inr r \<Rightarrow> collect self phonenumber qty (allresults @ [r]) ds)
      else Some allresults)"

text \<open>
  What \<^verbatim>\<open>get_phone_data\<close> returns: the one frame of \<^verbatim>\<open>allresults[0]\<close> itself, or
  the frame \<^verbatim>\<open>pd.concat(allresults, ignore_index=True)\<close> with the rows in order.
\<close>

datatype frame = Single identity | Concat "identity list"

definition pd_concat :: "identity list \<Rightarrow> error + frame" where
  "pd_concat objs = (if objs = [] then Inl NoObjectsToConcatenate else Inr (Concat objs))"

definition get_phone_data :: "random_phone \<Rightarrow> string option \<Rightarrow> int \<Rightarrow> draw list
                                  \<Rightarrow> (error + frame) option" where
  "get_phone_data self phonenumber qty draws =
     (case collect self phonenumber qty [] draws of
        None \<Rightarrow> None
      | Some allresults \<Rightarrow>
          Some (if length allresults = 1 then
                  (case py_index allresults 0 of Inl e \<Rightarrow> Inl e | Inr r \<Rightarrow> Inr (Single r))
                else pd_concat allresults))"

section \<open>Predicates and example data of the properties\<close>

text \<open>A decimal-digit string.\<close>

definition digits :: "string \<Rightarrow> bool" where
  "digits s = list_all isdigit s"

text \<open>The records of the attempts that succeed, in the order of the draws.\<close>

fun successful :: "random_phone \<Rightarrow> string option \<Rightarrow> draw list \<Rightarrow> identity list" where
  "successful self phonenumber [] = []"
| "successful self phonenumber (d # ds) =
     (case priv_get_phone_data self phonenumber d of
        Inl e \<Rightarrow> successful self phonenumber ds
      | Inr r \<Rightarrow> r # successful self phonenumber ds)"

text \<open>
  The first row of the example in the docstring of \<^verbatim>\<open>get_phone_data\<close>: the device
  QSmart MARK_2, the operator Vivo of Brazil, and the draws that give its derived
  columns.
\<close>

definition example_device :: device_row where
  "example_device = \<lparr> bb_tac1 = ''35440811'', bb_mac_prefix = Some ''00:0A:00'' \<rparr>"

definition example_operator :: operator_row where
  "example_operator =
     \<lparr> aa_country = ''Brazil'', aa_network = ''Vivo'', aa_mcc = ''724'',
       aa_mnc = ''11'', aa_line = ''55'', aa_iso = ''BR / BRA'' \<rparr>"

definition example_phone :: random_phone where
  "example_phone =
     \<lparr> country = ''Brazil'',
       phone_format_without_country = [[''11'', ''12''], [''9''], [''0001'']],
       df = [example_device],
       df2 = [example_operator] \<rparr>"

definition example_draw :: draw where
  "example_draw =
     \<lparr> fragment_draw = (\<lambda>i. 0), device_draw = 0, operator_draw = 0, imei_draw = 877984,
       octet1_draw = 41, octet2_draw = 244, octet3_draw = 202 \<rparr>"

definition example_identity :: identity where
  "example_identity =
     \<lparr> device = example_device,
       cc_imsi = ''724112497036871'',
       cc_imei = ''354408118779849'',
       cc_iccid = ''89550000112497036872'',
       cc_macaddress = ''00:0A:00:29:F4:CA'',
       cc_phone_number = ''5524970368714'',
       operator = example_operator \<rparr>"

text \<open>
  An instance for a country that no row of the operator table matches, with the
  search modelled by equality of the two names.
\<close>

definition unmatched_phone :: random_phone where
  "unmatched_phone =
     \<lparr> country = ''Atlantis'',
       phone_format_without_country = [],
       df = [example_device],
       df2 = [] \<rparr>"

text \<open>
  The layout of a MAC address from position \<open>i\<close> on: a colon at each of the positions
  2, 5, 8, 11 and 14, a symbol of \<open>hexs\<close> at every other position. A prefix may use
  hexadecimal digits of either case; the address itself is 17 characters in upper case.
\<close>

fun mac_layout :: "string \<Rightarrow> nat \<Rightarrow> string \<Rightarrow> bool" where
  "mac_layout hexs i [] = True"
| "mac_layout hexs i (c # cs) =
     ((if i \<in> {2, 5, 8, 11, 14} then c = CHR '':'' else c \<in> set hexs)
      \<and> mac_layout hexs (Suc i) cs)"

definition mac_prefix_shaped :: "string \<Rightarrow> bool" where
  "mac_prefix_shaped p = mac_layout ''0123456789abcdefABCDEF'' 0 p"

definition mac_shaped :: "string \<Rightarrow> bool" where
  "mac_shaped m = (length m = 17 \<and> mac_layout ''0123456789ABCDEF'' 0 m)"

section \<open>Properties of the checksum engine\<close>

declare str_nat.simps [simp del]
declare hex_nat.simps [simp del]

lemma slice2_Cons: "slice2 (x # xs) = x # slice2 (drop 1 xs)"
  by (cases xs) simp_all

lemma replicate_numeral_unfold:
  "replicate (numeral m) c = c # replicate (pred_numeral m) c"
  unfolding numeral_eq_Suc by simp

lemma str_index_nth:
  "distinct a \<Longrightarrow> k < length a \<Longrightarrow> str_index a (a ! k) = Inr k"
proof (induction a arbitrary: k)
  case Nil
  then show ?case by simp
next
  case (Cons x xs)
  show ?case
  proof (cases k)
    case 0
    then show ?thesis by simp
  next
    case (Suc j)
    with Cons.prems have "j < length xs" "xs ! j \<noteq> x" "distinct xs" by auto
    with Cons.IH[of j] Suc show ?thesis by simp
  qed
qed

lemma str_index_Inr: "str_index a c = Inr i \<Longrightarrow> i < length a \<and> a ! i = c"
  by (induction a arbitrary: i) (auto split: if_splits sum.splits)

lemma str_index_mem: "c \<in> set a \<Longrightarrow> \<exists>i. str_index a c = Inr i"
  by (induction a) (auto split: sum.splits)

lemma indices_total: "set s \<subseteq> set a \<Longrightarrow> \<exists>js. indices a s = Inr js"
proof (induction s)
  case Nil
  then show ?case by simp
next
  case (Cons c s)
  then obtain js where "indices a s = Inr js" by auto
  moreover from Cons.prems obtain i where "str_index a c = Inr i"
    using str_index_mem[of c a] by auto
  ultimately show ?case by simp
qed

lemma indices_Inr_subset: "indices a s = Inr js \<Longrightarrow> set s \<subseteq> set a"
proof (induction s arbitrary: js)
  case Nil
  then show ?case by simp
next
  case (Cons c s)
  then show ?case
    using str_index_Inr[of a c] by (auto split: sum.splits)
qed

lemma checksum_Inr_subset: "checksum s a = Inr c \<Longrightarrow> set s \<subseteq> set a"
  using indices_Inr_subset[of a "rev s"]
  by (auto simp: checksum_def Let_def split: sum.splits if_splits)

text \<open>
  The checksum of a number with one more symbol at its end: the index of that symbol
  plus a sum that depends on the rest only.
\<close>

lemma checksum_snoc:
  assumes "str_index a x = Inr i" "indices a (rev s) = Inr js"
  shows "checksum (s @ [x]) a =
           Inr ((i + (sum_list (slice2 (drop 1 js))
                      + sum_list (map (\<lambda>i. (i * 2) div length a + (i * 2) mod length a) (slice2 js))))
                mod length a)"
proof -
  from assms(1) have "a \<noteq> []" by (cases a) auto
  then show ?thesis using assms
    by (simp add: checksum_def slice2_Cons add.assoc Let_def)
qed

text \<open>
  Over the decimal alphabet the check digit is computed for every digit string, is a
  digit, and makes the checksum of the extended string zero.
\<close>

lemma luhn_default:
  assumes "set s \<subseteq> set default_alphabet"
  shows "\<exists>d. calc_check_digit s default_alphabet = Inr [d] \<and> d \<in> set default_alphabet
             \<and> checksum (s @ [d]) default_alphabet = Inr 0"
proof -
  let ?A = default_alphabet
  have lenA: "length ?A = 10" and distA: "distinct ?A"
    by (simp_all add: default_alphabet_def)
  from assms have "set (rev s) \<subseteq> set ?A" by simp
  then obtain js where js: "indices ?A (rev s) = Inr js"
    using indices_total by blast
  define K where "K = sum_list (slice2 (drop 1 js))
                      + sum_list (map (\<lambda>i. (i * 2) div 10 + (i * 2) mod 10) (slice2 js))"
  have i0: "str_index ?A (CHR ''0'') = Inr 0" by (simp add: default_alphabet_def)
  have a0: "py_index ?A 0 = Inr (CHR ''0'')" by (simp add: py_index_def default_alphabet_def)
  have c0: "checksum (s @ [CHR ''0'']) ?A = Inr (K mod 10)"
    using checksum_snoc[OF i0 js] by (simp add: lenA K_def)
  define c where "c = K mod 10"
  define k where "k = (10 - c) mod 10"
  have ck: "c < 10" "k < 10" by (simp_all add: c_def k_def)
  have pk: "py_index ?A (- int c) = Inr (?A ! k)"
  proof (cases "c = 0")
    case True
    then show ?thesis by (simp add: py_index_def lenA k_def)
  next
    case False
    with ck have "nat (10 - int c) = k" by (simp add: k_def nat_diff_distrib)
    with False ck show ?thesis by (simp add: py_index_def lenA Let_def)
  qed
  have ik: "str_index ?A (?A ! k) = Inr k"
    using str_index_nth[OF distA] ck lenA by simp
  have "checksum (s @ [?A ! k]) ?A = Inr ((k + K) mod 10)"
    using checksum_snoc[OF ik js] by (simp add: lenA K_def)
  moreover have "(k + K) mod 10 = 0"
  proof -
    obtain q where K: "K = 10 * q + c"
      using c_def by (metis mult_div_mod_eq)
    have "k + K = 10 * (q + (if c = 0 then 0 else 1))"
      using ck(1) unfolding K k_def by (cases "c = 0") simp_all
    then show ?thesis by simp
  qed
  moreover have "calc_check_digit s ?A = Inr [?A ! k]"
    by (simp add: calc_check_digit_def a0 c0 pk c_def[symmetric])
  moreover have "?A ! k \<in> set ?A" using ck lenA by (metis nth_mem)
  ultimately show ?thesis by auto
qed

lemma calc_check_digit_Inr_subset:
  assumes "calc_check_digit s a = Inr cd"
  shows "set s \<subseteq> set default_alphabet"
proof -
  from assms obtain a0 c where "checksum (s @ [a0]) default_alphabet = Inr c"
    by (auto simp: calc_check_digit_def split: sum.splits)
  then show ?thesis using checksum_Inr_subset by fastforce
qed

lemma calc_check_digit_valid:
  assumes "calc_check_digit s default_alphabet = Inr cd"
  shows "checksum (s @ cd) default_alphabet = Inr 0"
  using luhn_default[OF calc_check_digit_Inr_subset[OF assms]] assms by auto

section \<open>The reference example of the checksum\<close>

text \<open>
  C5 (as stated it fails): under the default decimal alphabet the checksum of
  \<^verbatim>\<open>"7992739871"\<close> is not 3.
\<close>

theorem checksum_reference_not_3: "checksum ''7992739871'' default_alphabet \<noteq> Inr 3"
  by (simp add: checksum_def default_alphabet_def)

text \<open>
  C5 (amended): under the default decimal alphabet the checksum of \<^verbatim>\<open>"7992739871"\<close>
  is 6. The 3 of the classic worked example is the check digit: \<^verbatim>\<open>calc_check_digit\<close>
  of \<^verbatim>\<open>"7992739871"\<close> is \<^verbatim>\<open>"3"\<close>, the checksum of \<^verbatim>\<open>"79927398710"\<close> is 7, and the
  checksum of \<^verbatim>\<open>"79927398713"\<close> is 0.
\<close>

theorem checksum_reference_is_6:
  "checksum ''7992739871'' default_alphabet = Inr 6
   \<and> calc_check_digit ''7992739871'' default_alphabet = Inr ''3''
   \<and> checksum ''79927398710'' default_alphabet = Inr 7
   \<and> checksum ''79927398713'' default_alphabet = Inr 0"
  by (simp add: checksum_def calc_check_digit_def py_index_def default_alphabet_def)

section \<open>The check digit over another alphabet\<close>

text \<open>
  C2 (the code departs from it): over the alphabet \<^verbatim>\<open>"01"\<close> the check digit computed
  for \<^verbatim>\<open>"1"\<close> is \<^verbatim>\<open>"0"\<close>, and the checksum of \<^verbatim>\<open>"10"\<close> over \<^verbatim>\<open>"01"\<close> is 1, not 0;
  over the alphabet \<^verbatim>\<open>"abc"\<close> no check digit is computed at all, since \<^verbatim>\<open>"a"\<close> is
  looked up in the decimal alphabet.
\<close>

theorem calc_check_digit_ignores_alphabet:
  "calc_check_digit ''1'' ''01'' = Inr ''0''
   \<and> checksum (''1'' @ ''0'') ''01'' = Inr 1
   \<and> calc_check_digit ''a'' ''abc'' = Inl SubstringNotFound"
  by code_simp

section \<open>The derived identifiers\<close>

lemma imei_example: "imei_body ''35440811'' 877984 = ''35440811877984''"
  by (simp add: imei_body_def zfill_def str_nat.simps)

lemma iccid_example: "iccid_body ''55'' ''11'' ''24970368714'' = ''8955000011249703687''"
  by (simp add: iccid_body_def replicate_numeral_unfold)

lemma macaddress_example: "macaddress_of ''00:0A:00'' 41 244 202 = ''00:0A:00:29:F4:CA''"
  by (simp add: macaddress_of_def random_octets_def fmt_02x_def py_slice_from_def upper_def
      upper_char_def hex_nat.simps)

lemma check_digit_imei_example:
  "calc_check_digit ''35440811877984'' default_alphabet = Inr ''9''"
  by (simp add: calc_check_digit_def checksum_def py_index_def default_alphabet_def)

lemma check_digit_iccid_example:
  "calc_check_digit ''8955000011249703687'' default_alphabet = Inr ''2''"
  by (simp add: calc_check_digit_def checksum_def py_index_def default_alphabet_def)

lemma phone_number_example:
  "priv_get_phone_number example_phone (Some ''24970368714'') example_draw = Inr ''24970368714''"
  by (simp add: priv_get_phone_number_def truthy_def strip_non_digits_def isdigit_def)

text \<open>The model gives the first row of the docstring's example, column by column.\<close>

lemma example_row:
  "priv_get_phone_data example_phone (Some ''24970368714'') example_draw = Inr example_identity"
  unfolding priv_get_phone_data_def phone_number_example
  by (simp add: example_phone_def example_draw_def example_device_def example_operator_def
      sample_def imei_example iccid_example check_digit_imei_example check_digit_iccid_example
      macaddress_example imsi_of_def example_identity_def)

text \<open>What a successful attempt has computed.\<close>

lemma priv_get_phone_data_Inr:
  assumes "priv_get_phone_data self p d = Inr r"
  obtains phonenumber sa2 sa cd1 cd2 macaddressprefix where
    "priv_get_phone_number self p d = Inr phonenumber"
    "sample (df self) (device_draw d) = Inr sa2"
    "sample (df2 self) (operator_draw d) = Inr sa"
    "calc_check_digit (imei_body (bb_tac1 sa2) (imei_draw d)) default_alphabet = Inr cd1"
    "calc_check_digit (iccid_body (aa_line sa) (aa_mnc sa) phonenumber) default_alphabet = Inr cd2"
    "bb_mac_prefix sa2 = Some macaddressprefix"
    "device r = sa2" "operator r = sa"
    "cc_imsi r = imsi_of (aa_mcc sa) (aa_mnc sa) phonenumber"
    "cc_imei r = imei_body (bb_tac1 sa2) (imei_draw d) @ cd1"
    "cc_iccid r = iccid_body (aa_line sa) (aa_mnc sa) phonenumber @ cd2"
    "cc_macaddress r =
       macaddress_of macaddressprefix (octet1_draw d) (octet2_draw d) (octet3_draw d)"
    "cc_phone_number r = aa_line sa @ phonenumber"
  using assms unfolding priv_get_phone_data_def
  by (auto split: sum.splits option.splits)

text \<open>
  C1: the IMEI and the ICCID of every generated record pass the Luhn validation over
  the decimal alphabet. A record is generated only when both check digits were
  computed, which needs the sampled \<open>tac\<close>, \<open>line\<close> and \<open>mnc\<close> to be digit strings;
  so the property holds for every record the attempt returns.
\<close>

theorem generated_imei_iccid_pass_luhn:
  assumes "priv_get_phone_data self phonenumber d = Inr r"
  shows "checksum (cc_imei r) default_alphabet = Inr 0
         \<and> checksum (cc_iccid r) default_alphabet = Inr 0"
  using assms
proof (rule priv_get_phone_data_Inr)
  fix pn sa2 sa cd1 cd2 pre
  assume c1: "calc_check_digit (imei_body (bb_tac1 sa2) (imei_draw d)) default_alphabet = Inr cd1"
    and c2: "calc_check_digit (iccid_body (aa_line sa) (aa_mnc sa) pn) default_alphabet = Inr cd2"
    and r: "cc_imei r = imei_body (bb_tac1 sa2) (imei_draw d) @ cd1"
      "cc_iccid r = iccid_body (aa_line sa) (aa_mnc sa) pn @ cd2"
  show ?thesis
    using calc_check_digit_valid[OF c1] calc_check_digit_valid[OF c2] by (simp add: r)
qed

theorem generated_imei_iccid_pass_luhn_witness:
  "priv_get_phone_data example_phone (Some ''24970368714'') example_draw = Inr example_identity
   \<and> checksum (cc_imei example_identity) default_alphabet = Inr 0
   \<and> checksum (cc_iccid example_identity) default_alphabet = Inr 0"
  using generated_imei_iccid_pass_luhn[OF example_row] example_row by simp

section \<open>The retry loop\<close>

text \<open>
  The loop ends as soon as \<open>qty\<close> attempts have succeeded, with their records in order;
  it does not end on draws that hold fewer successes.
\<close>

lemma collect_eq:
  "collect self p qty acc ds =
     (if qty \<le> int (length acc) then Some acc
      else if qty \<le> int (length acc + length (successful self p ds))
      then Some (acc @ take (nat qty - length acc) (successful self p ds))
      else None)"
proof (induction ds arbitrary: acc)
  case Nil
  then show ?case by simp
next
  case (Cons d ds)
  show ?case
  proof (cases "qty \<le> int (length acc)")
    case True
    then show ?thesis by simp
  next
    case False
    show ?thesis
    proof (cases "priv_get_phone_data self p d")
      case (Inl e)
      with False show ?thesis by (simp add: Cons.IH)
    next
      case (Inr r)
      from False have "nat qty - length acc = Suc (nat qty - length acc - 1)" by linarith
      then have "take (nat qty - length acc) (r # successful self p ds)
                   = r # take (nat qty - Suc (length acc)) (successful self p ds)"
        by (metis diff_Suc_eq_diff_pred diff_commute take_Suc_Cons)
      moreover from False have "qty \<le> int (Suc (length acc)) \<Longrightarrow> nat qty - Suc (length acc) = 0"
        by linarith
      ultimately show ?thesis using False Inr by (simp add: Cons.IH)
    qed
  qed
qed

text \<open>
  C10: with \<^verbatim>\<open>qty == 0\<close> the loop collects nothing and the call fails in
  \<^verbatim>\<open>pd.concat\<close> of the empty list, whatever the instance, the phone number and the
  draws are.
\<close>

theorem get_phone_data_qty_0:
  "get_phone_data self phonenumber 0 draws = Some (Inl NoObjectsToConcatenate)"
  by (simp add: get_phone_data_def collect_eq pd_concat_def)

lemma successful_example:
  "successful example_phone (Some ''24970368714'') [example_draw, example_draw]
     = [example_identity, example_identity]"
  by (simp add: example_row)

text \<open>
  C8 (as stated it fails): when the only row of the device table has no MAC prefix, an
  attempt fails with TypeError, and for the count 1 the call has returned no record
  after three attempts.
\<close>

theorem missing_prefix_counterexample:
  "priv_get_phone_data (example_phone\<lparr>df := [example_device\<lparr>bb_mac_prefix := None\<rparr>]\<rparr>)
       (Some ''24970368714'') example_draw = Inl TypeError
   \<and> get_phone_data (example_phone\<lparr>df := [example_device\<lparr>bb_mac_prefix := None\<rparr>]\<rparr>)
       (Some ''24970368714'') 1 [example_draw, example_draw, example_draw] = None"
proof -
  have p: "priv_get_phone_number
             (example_phone\<lparr>df := [example_device\<lparr>bb_mac_prefix := None\<rparr>]\<rparr>)
             (Some ''24970368714'') example_draw = Inr ''24970368714''"
    by (simp add: priv_get_phone_number_def truthy_def strip_non_digits_def isdigit_def)
  have one: "priv_get_phone_data
               (example_phone\<lparr>df := [example_device\<lparr>bb_mac_prefix := None\<rparr>]\<rparr>)
               (Some ''24970368714'') example_draw = Inl TypeError"
    unfolding priv_get_phone_data_def p
    by (simp add: example_phone_def example_draw_def example_device_def example_operator_def
        sample_def imei_example check_digit_imei_example iccid_example
        check_digit_iccid_example)
  then show ?thesis
    by (simp add: get_phone_data_def)
qed

text \<open>
  C8 (amended): for every count \<open>qty \<ge> 1\<close>, the call returns once \<open>qty\<close> attempts have
  succeeded, and only then; it returns exactly the first \<open>qty\<close> records: the record
  itself when \<open>qty = 1\<close>, the frame of the \<open>qty\<close> records in order otherwise.
\<close>

theorem get_phone_data_returns_qty_records:
  assumes "1 \<le> qty"
  shows "(qty \<le> int (length (successful self phonenumber draws)) \<longrightarrow>
            get_phone_data self phonenumber qty draws =
              Some (Inr (if qty = 1 then Single (successful self phonenumber draws ! 0)
                         else Concat (take (nat qty) (successful self phonenumber draws))))
            \<and> length (take (nat qty) (successful self phonenumber draws)) = nat qty)
         \<and> (get_phone_data self phonenumber qty draws \<noteq> None \<longrightarrow>
              qty \<le> int (length (successful self phonenumber draws)))"
proof (intro conjI impI)
  assume "get_phone_data self phonenumber qty draws \<noteq> None"
  with assms show "qty \<le> int (length (successful self phonenumber draws))"
    by (auto simp: get_phone_data_def collect_eq split: if_splits option.splits)
next
  assume enough: "qty \<le> int (length (successful self phonenumber draws))"
  let ?rs = "take (nat qty) (successful self phonenumber draws)"
  from assms enough show len: "length ?rs = nat qty" by simp
  from assms enough have c: "collect self phonenumber qty [] draws = Some ?rs"
    by (simp add: collect_eq)
  show "get_phone_data self phonenumber qty draws =
          Some (Inr (if qty = 1 then Single (successful self phonenumber draws ! 0)
                     else Concat ?rs))"
  proof (cases "qty = 1")
    case True
    with len have "?rs ! 0 = successful self phonenumber draws ! 0" by simp
    with True len c show ?thesis
      by (simp add: get_phone_data_def py_index_def)
  next
    case False
    with assms len have "length ?rs \<noteq> 1" "?rs \<noteq> []" by auto
    with False len c show ?thesis
      by (simp add: get_phone_data_def pd_concat_def)
  qed
qed

theorem get_phone_data_returns_qty_records_witness:
  "get_phone_data example_phone (Some ''24970368714'') 1 [example_draw, example_draw]
     = Some (Inr (Single example_identity))
   \<and> get_phone_data example_phone (Some ''24970368714'') 2 [example_draw, example_draw]
     = Some (Inr (Concat [example_identity, example_identity]))"
  using get_phone_data_returns_qty_records
          [of 1 example_phone "Some ''24970368714''" "[example_draw, example_draw]"]
        get_phone_data_returns_qty_records
          [of 2 example_phone "Some ''24970368714''" "[example_draw, example_draw]"]
  by (simp add: successful_example del: successful.simps)

section \<open>No phone number to build\<close>

lemma successful_Nil:
  "(\<And>d. \<exists>e. priv_get_phone_data self p d = Inl e) \<Longrightarrow> successful self p ds = []"
proof (induction ds)
  case Nil
  then show ?case by simp
next
  case (Cons d ds)
  from Cons.prems obtain e where "priv_get_phone_data self p d = Inl e" by blast
  with Cons show ?case by simp
qed

text \<open>
  C3 (the code departs from it): without an explicit phone number and without a format
  the attempt itself fails with the ValueError of \<^verbatim>\<open>_get_phone_number\<close>, but
  \<^verbatim>\<open>get_phone_data\<close> catches it like any other exception and tries again: for a count
  \<open>qty \<ge> 1\<close> no list of draws lets the call return, neither a record nor the error.
\<close>

theorem need_phone_number_is_retried:
  assumes "\<not> truthy phonenumber" and "phone_format_without_country self = []" and "1 \<le> qty"
  shows "priv_get_phone_data self phonenumber d = Inl NeedPhoneNumber
         \<and> get_phone_data self phonenumber qty draws = None"
proof -
  have one: "priv_get_phone_data self phonenumber d' = Inl NeedPhoneNumber" for d'
    using assms(1,2) by (simp add: priv_get_phone_data_def priv_get_phone_number_def)
  then have "successful self phonenumber draws = []"
    by (intro successful_Nil) blast
  with assms(3) have "get_phone_data self phonenumber qty draws = None"
    by (simp add: get_phone_data_def collect_eq)
  with one show ?thesis by simp
qed

theorem need_phone_number_is_retried_witness:
  "priv_get_phone_data (example_phone\<lparr>phone_format_without_country := []\<rparr>) None example_draw
     = Inl NeedPhoneNumber
   \<and> get_phone_data (example_phone\<lparr>phone_format_without_country := []\<rparr>) None 1
       [example_draw, example_draw, example_draw] = None"
  using need_phone_number_is_retried
          [of None "example_phone\<lparr>phone_format_without_country := []\<rparr>" 1 example_draw
              "[example_draw, example_draw, example_draw]"]
  by (simp add: truthy_def)

section \<open>Phone numbers from a format\<close>

lemma init_example_format:
  "RandomPhone_init contains devs ops ctry [[''11'', ''12''], [''9''], [''0001'']] =
     Inr \<lparr> country = ctry,
           phone_format_without_country = [[''11'', ''12''], [''9''], [''0001'']],
           df = devs,
           df2 = filter (\<lambda>r. contains ctry (aa_country r)) ops \<rparr>"
  by (simp add: RandomPhone_init_def py_index_def zfill_def)

text \<open>Shorter fragments of a chunk are padded with zeros to its longest fragment.\<close>

lemma init_pads_fragments:
  "RandomPhone_init contains devs ops ctry [[''11'', ''3''], [''1'', ''0001'']] =
     Inr \<lparr> country = ctry,
           phone_format_without_country = [[''11'', ''03''], [''0001'', ''0001'']],
           df = devs,
           df2 = filter (\<lambda>r. contains ctry (aa_country r)) ops \<rparr>"
  by (simp add: RandomPhone_init_def py_index_def zfill_def replicate_numeral_unfold)

lemma random_choice_one: "random_choice r [a] = Inr a"
  by (simp add: random_choice_def)

lemma random_choice_two: "random_choice r [a, b] = Inr a \<or> random_choice r [a, b] = Inr b"
proof -
  have "r mod Suc (Suc 0) = 0 \<or> r mod Suc (Suc 0) = Suc 0" by arith
  then show ?thesis by (auto simp: random_choice_def)
qed

text \<open>
  C9: for the format \<^verbatim>\<open>[["11","12"], ["9"], ["0001"]]\<close> and no explicit phone number,
  every draw builds \<^verbatim>\<open>"1190001"\<close> or \<^verbatim>\<open>"1290001"\<close>.
\<close>

theorem example_format_phone_numbers:
  assumes "RandomPhone_init contains devs ops ctry [[''11'', ''12''], [''9''], [''0001'']] = Inr self"
  shows "priv_get_phone_number self None d = Inr ''1190001''
         \<or> priv_get_phone_number self None d = Inr ''1290001''"
proof -
  from assms have fmt: "phone_format_without_country self = [[''11'', ''12''], [''9''], [''0001'']]"
    by (auto simp: init_example_format)
  show ?thesis
    using random_choice_two[of "fragment_draw d 0" "''11''" "''12''"]
    by (auto simp: priv_get_phone_number_def truthy_def fmt random_choice_one
        strip_non_digits_def isdigit_def)
qed

theorem example_format_phone_numbers_witness:
  "RandomPhone_init (=) [example_device] [example_operator] ''Brazil''
       [[''11'', ''12''], [''9''], [''0001'']] = Inr example_phone
   \<and> priv_get_phone_number example_phone None example_draw = Inr ''1190001''"
proof -
  have i: "RandomPhone_init (=) [example_device] [example_operator] ''Brazil''
             [[''11'', ''12''], [''9''], [''0001'']] = Inr example_phone"
    by (simp add: init_example_format example_phone_def example_operator_def)
  have "priv_get_phone_number example_phone None example_draw \<noteq> Inr ''1290001''"
    by (simp add: priv_get_phone_number_def truthy_def example_phone_def example_draw_def
        random_choice_def strip_non_digits_def isdigit_def)
  with example_format_phone_numbers[OF i, of example_draw] i show ?thesis by simp
qed

text \<open>Both numbers are built: the draw for the first chunk decides.\<close>

lemma example_format_both_numbers:
  "priv_get_phone_number example_phone None (example_draw\<lparr>fragment_draw := (\<lambda>i. 1)\<rparr>)
     = Inr ''1290001''"
  by (simp add: priv_get_phone_number_def truthy_def example_phone_def example_draw_def
      random_choice_def strip_non_digits_def isdigit_def)

section \<open>A country without operator rows\<close>

lemma init_unmatched:
  "RandomPhone_init (=) [example_device] [example_operator] ''Atlantis'' [] = Inr unmatched_phone"
  by (simp add: RandomPhone_init_def unmatched_phone_def example_operator_def)

text \<open>
  C4 (as stated it fails): for a country that matches no operator row the construction
  succeeds; an attempt then fails with the ValueError of \<^verbatim>\<open>DataFrame.sample\<close> on the
  empty frame, which is no error of the module about the operator data, and
  \<^verbatim>\<open>get_phone_data\<close> has surfaced nothing after three attempts.
\<close>

theorem unmatched_country_counterexample:
  "RandomPhone_init (=) [example_device] [example_operator] ''Atlantis'' [] = Inr unmatched_phone
   \<and> priv_get_phone_data unmatched_phone (Some ''24970368714'') example_draw = Inl EmptySample
   \<and> get_phone_data unmatched_phone (Some ''24970368714'') 1
       [example_draw, example_draw, example_draw] = None"
  by (simp add: init_unmatched get_phone_data_def priv_get_phone_data_def priv_get_phone_number_def
      truthy_def sample_def unmatched_phone_def example_draw_def)

text \<open>
  C4 (amended): when the country matches no operator row, the constructed instance has
  an empty operator table and no attempt returns a record: an attempt fails with the
  error of building the phone number if there is one, and otherwise with the
  ValueError of \<^verbatim>\<open>DataFrame.sample\<close> on an empty frame.
\<close>

theorem unmatched_country_never_generates:
  assumes "RandomPhone_init contains devs ops ctry fmt = Inr self"
    and "\<forall>r \<in> set ops. \<not> contains ctry (aa_country r)"
  shows "df2 self = []
         \<and> priv_get_phone_data self phonenumber d =
             (case priv_get_phone_number self phonenumber d of
                Inl e \<Rightarrow> Inl e
              | Inr pn \<Rightarrow> Inl EmptySample)"
proof -
  from assms(2) have "filter (\<lambda>r. contains ctry (aa_country r)) ops = []"
    by (simp add: filter_empty_conv)
  with assms(1) have e: "df2 self = []"
    by (auto simp: RandomPhone_init_def split: sum.splits)
  then show ?thesis
    by (simp add: priv_get_phone_data_def sample_def split: sum.splits)
qed

theorem unmatched_country_never_generates_witness:
  "df2 unmatched_phone = []
   \<and> priv_get_phone_data unmatched_phone (Some ''24970368714'') example_draw = Inl EmptySample"
proof -
  have "\<forall>r \<in> set [example_operator]. \<not> ''Atlantis'' = aa_country r"
    by (simp add: example_operator_def)
  from unmatched_country_never_generates[OF init_unmatched this,
         of "Some ''24970368714''" example_draw]
  show ?thesis
    by (simp add: priv_get_phone_number_def truthy_def)
qed

section \<open>The lengths of the derived identifiers\<close>

lemma length_zfill: "length (zfill w s) = max w (length s)"
  by (auto simp: zfill_def split: list.splits)

lemma length_str_nat: "n < 10 ^ k \<Longrightarrow> 0 < k \<Longrightarrow> length (str_nat n) \<le> k"
proof (induction n arbitrary: k rule: str_nat.induct)
  case (1 n)
  show ?case
  proof (cases "n < 10")
    case True
    with "1.prems" show ?thesis by (simp add: str_nat.simps[of n])
  next
    case False
    with "1.prems" obtain j where k: "k = Suc j" by (cases k) auto
    with False "1.prems" have "0 < j" by (cases j) auto
    moreover from "1.prems" k have "n div 10 < 10 ^ j" by (simp add: less_mult_imp_div_less mult.commute)
    ultimately have "length (str_nat (n div 10)) \<le> j"
      using "1.IH"[OF False] by blast
    with False k show ?thesis by (simp add: str_nat.simps[of n])
  qed
qed

text \<open>The random part of the IMEI is always six characters.\<close>

lemma length_imei_random: "length (zfill 6 (str_nat (r mod 1000000))) = 6"
proof -
  have "r mod 1000000 < 10 ^ 6" by simp
  then have "length (str_nat (r mod 1000000)) \<le> 6"
    by (rule length_str_nat) simp
  then show ?thesis by (simp add: length_zfill)
qed

lemma length_imei_body: "length (imei_body tac r) = min 14 (length tac + 6)"
  by (simp add: imei_body_def length_imei_random del: zfill_def)

lemma length_iccid_body: "length (iccid_body line mnc pn) = min 19 (length mnc + 18)"
proof -
  define a where "a = take 6 (line @ replicate 6 (CHR ''0''))"
  define b where "b = take 10 (pn @ replicate 12 (CHR ''0''))"
  have la: "length a = 6" and lb: "length b = 10"
    by (simp_all add: a_def b_def)
  have "iccid_body line mnc pn = take 19 (''89'' @ a @ mnc @ b)"
    unfolding iccid_body_def a_def b_def ..
  then have "length (iccid_body line mnc pn) = min 19 (length (''89'' @ a @ mnc @ b))"
    by (simp only: length_take min.commute)
  also have "length (''89'' @ a @ mnc @ b) = length mnc + 18"
    by (simp add: la lb)
  finally show ?thesis .
qed

lemma length_imsi_of: "length (imsi_of mcc mnc pn) \<le> 15"
  by (simp add: imsi_of_def)

lemma length_calc_check_digit: "calc_check_digit s a = Inr cd \<Longrightarrow> length cd = 1"
  by (auto simp: calc_check_digit_def split: sum.splits)

text \<open>
  C7 (as stated it fails): with a \<open>tac\<close> of seven digits the generated IMEI has 14
  characters, not 15.
\<close>

theorem short_tac_counterexample:
  "priv_get_phone_data (example_phone\<lparr>df := [example_device\<lparr>bb_tac1 := ''3544081''\<rparr>]\<rparr>)
       (Some ''24970368714'') example_draw
     = Inr (example_identity\<lparr>device := example_device\<lparr>bb_tac1 := ''3544081''\<rparr>,
                               cc_imei := ''35440818779842''\<rparr>)
   \<and> length ''35440818779842'' \<noteq> 15"
proof -
  have b: "imei_body ''3544081'' 877984 = ''3544081877984''"
    by (simp add: imei_body_def zfill_def str_nat.simps)
  have c: "calc_check_digit ''3544081877984'' default_alphabet = Inr ''2''"
    by (simp add: calc_check_digit_def checksum_def py_index_def default_alphabet_def)
  have p: "priv_get_phone_number (example_phone\<lparr>df := [example_device\<lparr>bb_tac1 := ''3544081''\<rparr>]\<rparr>)
             (Some ''24970368714'') example_draw = Inr ''24970368714''"
    by (simp add: priv_get_phone_number_def truthy_def strip_non_digits_def isdigit_def)
  show ?thesis
    unfolding priv_get_phone_data_def p
    by (simp add: example_phone_def example_draw_def example_device_def example_operator_def
        sample_def b c iccid_example check_digit_iccid_example macaddress_example imsi_of_def
        example_identity_def)
qed

text \<open>
  C7 (amended): in every generated record the IMSI has at most 15 characters; the IMEI
  has \<open>min 14 (length tac + 6) + 1\<close> characters, which is 15 when \<open>tac\<close> has at least 8
  characters; the ICCID has \<open>min 19 (length mnc + 18) + 1\<close> characters, which is 20 when
  \<open>mnc\<close> is not empty.
\<close>

theorem identifier_lengths:
  assumes "priv_get_phone_data self phonenumber d = Inr r"
  shows "length (cc_imsi r) \<le> 15
         \<and> length (cc_imei r) = min 14 (length (bb_tac1 (device r)) + 6) + 1
         \<and> length (cc_iccid r) = min 19 (length (aa_mnc (operator r)) + 18) + 1
         \<and> (8 \<le> length (bb_tac1 (device r)) \<longrightarrow> length (cc_imei r) = 15)
         \<and> (aa_mnc (operator r) \<noteq> [] \<longrightarrow> length (cc_iccid r) = 20)"
  using assms
proof (rule priv_get_phone_data_Inr)
  fix pn sa2 sa cd1 cd2 pre
  assume c1: "calc_check_digit (imei_body (bb_tac1 sa2) (imei_draw d)) default_alphabet = Inr cd1"
    and c2: "calc_check_digit (iccid_body (aa_line sa) (aa_mnc sa) pn) default_alphabet = Inr cd2"
    and r: "device r = sa2" "operator r = sa"
      "cc_imsi r = imsi_of (aa_mcc sa) (aa_mnc sa) pn"
      "cc_imei r = imei_body (bb_tac1 sa2) (imei_draw d) @ cd1"
      "cc_iccid r = iccid_body (aa_line sa) (aa_mnc sa) pn @ cd2"
  have l: "length cd1 = 1" "length cd2 = 1"
    using c1 c2 by (simp_all add: length_calc_check_digit)
  have m: "aa_mnc sa \<noteq> [] \<Longrightarrow> min 19 (length (aa_mnc sa) + 18) = 19"
    by (cases "aa_mnc sa") simp_all
  show ?thesis
    using m by (simp add: r l length_imei_body length_iccid_body length_imsi_of)
qed

theorem identifier_lengths_witness:
  "priv_get_phone_data example_phone (Some ''24970368714'') example_draw = Inr example_identity
   \<and> length (cc_imsi example_identity) = 15
   \<and> length (cc_imei example_identity) = 15
   \<and> length (cc_iccid example_identity) = 20"
  using identifier_lengths[OF example_row] example_row
  by (simp add: example_identity_def)

section \<open>The MAC address\<close>

lemma hex_nat_byte:
  assumes "n < 256"
  shows "fmt_02x n = [''0123456789abcdef'' ! (n div 16), ''0123456789abcdef'' ! (n mod 16)]"
proof (cases "n < 16")
  case True
  then show ?thesis by (simp add: fmt_02x_def hex_nat.simps[of n])
next
  case False
  with assms have "n div 16 < 16" by simp
  with False show ?thesis
    by (simp add: fmt_02x_def hex_nat.simps[of n] hex_nat.simps[of "n div 16"])
qed

lemma upper_hex_all:
  "list_all (\<lambda>c. upper_char c \<in> set ''0123456789ABCDEF'') ''0123456789abcdefABCDEF''"
  by (simp add: upper_char_def)

lemma upper_hex:
  "c \<in> set ''0123456789abcdefABCDEF'' \<Longrightarrow> upper_char c \<in> set ''0123456789ABCDEF''"
  using upper_hex_all unfolding list_all_iff by blast

lemma upper_hex_digit:
  assumes "k < 16"
  shows "upper_char (''0123456789abcdef'' ! k) \<in> set ''0123456789ABCDEF''"
proof -
  have "''0123456789abcdefABCDEF'' = ''0123456789abcdef'' @ ''ABCDEF''" by simp
  then have "set ''0123456789abcdef'' \<subseteq> set ''0123456789abcdefABCDEF''"
    by (simp only: set_append) blast
  moreover from assms have "''0123456789abcdef'' ! k \<in> set ''0123456789abcdef''"
    by (intro nth_mem) simp
  ultimately show ?thesis by (intro upper_hex) blast
qed

lemma upper_Cons: "upper (c # cs) = upper_char c # upper cs"
  by (simp add: upper_def)

lemma upper_append: "upper (xs @ ys) = upper xs @ upper ys"
  by (simp add: upper_def)

lemma length_upper: "length (upper xs) = length xs"
  by (simp add: upper_def)

lemma upper_colon: "upper_char CHR '':'' = CHR '':''"
  by (simp add: upper_char_def)

lemma upper_byte:
  "\<exists>a b. upper (fmt_02x (r mod 256)) = [a, b]
         \<and> a \<in> set ''0123456789ABCDEF'' \<and> b \<in> set ''0123456789ABCDEF''"
proof -
  have "r mod 256 div 16 < 16" "r mod 256 mod 16 < 16" by simp_all
  then have "upper_char (''0123456789abcdef'' ! (r mod 256 div 16)) \<in> set ''0123456789ABCDEF''"
    "upper_char (''0123456789abcdef'' ! (r mod 256 mod 16)) \<in> set ''0123456789ABCDEF''"
    by (simp_all only: upper_hex_digit)
  moreover have "upper (fmt_02x (r mod 256)) =
      [upper_char (''0123456789abcdef'' ! (r mod 256 div 16)),
       upper_char (''0123456789abcdef'' ! (r mod 256 mod 16))]"
    by (simp only: hex_nat_byte[of "r mod 256"] mod_less_divisor zero_less_numeral upper_def
        list.map)
  ultimately show ?thesis by blast
qed

lemma length_random_octets: "length (random_octets r1 r2 r3) = 9"
  by (simp add: random_octets_def hex_nat_byte)

lemma layout_random_octets:
  "mac_layout ''0123456789ABCDEF'' 8 (upper (random_octets r1 r2 r3))"
proof -
  obtain a1 b1 where 1: "upper (fmt_02x (r1 mod 256)) = [a1, b1]"
    "a1 \<in> set ''0123456789ABCDEF''" "b1 \<in> set ''0123456789ABCDEF''"
    using upper_byte by blast
  obtain a2 b2 where 2: "upper (fmt_02x (r2 mod 256)) = [a2, b2]"
    "a2 \<in> set ''0123456789ABCDEF''" "b2 \<in> set ''0123456789ABCDEF''"
    using upper_byte by blast
  obtain a3 b3 where 3: "upper (fmt_02x (r3 mod 256)) = [a3, b3]"
    "a3 \<in> set ''0123456789ABCDEF''" "b3 \<in> set ''0123456789ABCDEF''"
    using upper_byte by blast
  have "upper (random_octets r1 r2 r3) = [CHR '':'', a1, b1, CHR '':'', a2, b2, CHR '':'', a3, b3]"
    unfolding random_octets_def
    by (simp only: upper_append upper_Cons upper_colon 1 2 3 append_Cons append_Nil)
  moreover have "mac_layout hexs 8 [CHR '':'', a1, b1, CHR '':'', a2, b2, CHR '':'', a3, b3]
      = (a1 \<in> set hexs \<and> b1 \<in> set hexs \<and> a2 \<in> set hexs \<and> b2 \<in> set hexs
         \<and> a3 \<in> set hexs \<and> b3 \<in> set hexs)" for hexs
    by simp
  ultimately show ?thesis using 1(2,3) 2(2,3) 3(2,3) by (simp only: simp_thms)
qed

lemma mac_layout_drop: "mac_layout hexs i xs \<Longrightarrow> mac_layout hexs (i + k) (drop k xs)"
proof (induction xs arbitrary: i k)
  case Nil
  then show ?case by simp
next
  case (Cons x xs)
  show ?case
  proof (cases k)
    case 0
    with Cons.prems show ?thesis by simp
  next
    case (Suc j)
    from Cons.prems have "mac_layout hexs (Suc i) xs" by simp
    from Cons.IH[OF this, of j] Suc show ?thesis by simp
  qed
qed

lemma mac_layout_append:
  "mac_layout hexs i (xs @ ys) = (mac_layout hexs i xs \<and> mac_layout hexs (i + length xs) ys)"
proof (induction xs arbitrary: i)
  case Nil
  then show ?case by simp
next
  case (Cons x xs)
  define P where "P = (if i \<in> {2, 5, 8, 11, 14} then x = CHR '':'' else x \<in> set hexs)"
  have 1: "mac_layout hexs i ((x # xs) @ ys) = (P \<and> mac_layout hexs (Suc i) (xs @ ys))"
    by (simp only: append_Cons mac_layout.simps P_def)
  have 2: "mac_layout hexs i (x # xs) = (P \<and> mac_layout hexs (Suc i) xs)"
    by (simp only: mac_layout.simps P_def)
  have 3: "i + length (x # xs) = Suc i + length xs" by simp
  show ?case unfolding 1 2 3 Cons.IH by blast
qed

lemma mac_layout_upper:
  "mac_layout ''0123456789abcdefABCDEF'' i p \<Longrightarrow> mac_layout ''0123456789ABCDEF'' i (upper p)"
proof (induction p arbitrary: i)
  case Nil
  then show ?case by (simp add: upper_def)
next
  case (Cons c p)
  from Cons.prems have rest: "mac_layout ''0123456789ABCDEF'' (Suc i) (upper p)"
    by (intro Cons.IH) (simp only: mac_layout.simps)
  show ?case
  proof (cases "i \<in> {2, 5, 8, 11, 14}")
    case True
    with Cons.prems have "c = CHR '':''" by (simp only: mac_layout.simps if_True)
    with True rest show ?thesis
      by (simp only: upper_Cons mac_layout.simps if_True upper_colon simp_thms)
  next
    case False
    with Cons.prems have "c \<in> set ''0123456789abcdefABCDEF''"
      by (simp only: mac_layout.simps if_False)
    then have "upper_char c \<in> set ''0123456789ABCDEF''" by (rule upper_hex)
    with False rest show ?thesis
      by (simp only: upper_Cons mac_layout.simps if_False simp_thms)
  qed
qed

text \<open>
  For a prefix of 8 to 16 characters the address is the prefix in upper case and then
  the last \<open>17 - length prefix\<close> characters of the random octets in upper case.
\<close>

lemma macaddress_of_eq:
  assumes "8 \<le> length p" "length p \<le> 16"
  shows "macaddress_of p r1 r2 r3 = upper p @ upper (drop (length p - 8) (random_octets r1 r2 r3))"
proof -
  from assms have "nat (9 + (- (17 - int (length p)))) = length p - 8" by linarith
  with assms show ?thesis
    by (simp add: macaddress_of_def py_slice_from_def length_random_octets upper_append)
qed

text \<open>A shorter prefix gets all three octets, so the address is shorter than 17.\<close>

lemma macaddress_of_short:
  assumes "length p < 8"
  shows "macaddress_of p r1 r2 r3 = upper p @ upper (random_octets r1 r2 r3)"
    and "length (macaddress_of p r1 r2 r3) = length p + 9"
proof -
  from assms show 1: "macaddress_of p r1 r2 r3 = upper p @ upper (random_octets r1 r2 r3)"
    by (simp add: macaddress_of_def py_slice_from_def length_random_octets upper_append)
  show "length (macaddress_of p r1 r2 r3) = length p + 9"
    by (simp add: 1 length_upper length_random_octets)
qed

text \<open>
  C6 (as stated it fails): with the five-character prefix \<^verbatim>\<open>00:0A\<close> the generated
  address has 14 characters, not 17.
\<close>

theorem short_prefix_counterexample:
  "priv_get_phone_data (example_phone\<lparr>df := [example_device\<lparr>bb_mac_prefix := Some ''00:0A''\<rparr>]\<rparr>)
       (Some ''24970368714'') example_draw
     = Inr (example_identity\<lparr>device := example_device\<lparr>bb_mac_prefix := Some ''00:0A''\<rparr>,
                               cc_macaddress := ''00:0A:29:F4:CA''\<rparr>)
   \<and> length ''00:0A:29:F4:CA'' \<noteq> 17"
proof -
  have m: "macaddress_of ''00:0A'' 41 244 202 = ''00:0A:29:F4:CA''"
    by (simp add: macaddress_of_def random_octets_def fmt_02x_def py_slice_from_def upper_def
        upper_char_def hex_nat.simps)
  have p: "priv_get_phone_number
             (example_phone\<lparr>df := [example_device\<lparr>bb_mac_prefix := Some ''00:0A''\<rparr>]\<rparr>)
             (Some ''24970368714'') example_draw = Inr ''24970368714''"
    by (simp add: priv_get_phone_number_def truthy_def strip_non_digits_def isdigit_def)
  show ?thesis
    unfolding priv_get_phone_data_def p
    by (simp add: example_phone_def example_draw_def example_device_def example_operator_def
        sample_def m imei_example check_digit_imei_example iccid_example
        check_digit_iccid_example imsi_of_def example_identity_def)
qed

text \<open>
  C6 (amended): in every generated record whose device row has a MAC prefix of 8 to 16
  characters, made of hexadecimal digits with colons at the positions 2, 5, 8, 11 and
  14, the address has exactly 17 characters, upper-case hexadecimal digits with colons
  at the positions 2, 5, 8, 11 and 14; it starts with the prefix in upper case and
  ends with the last \<open>17 - length prefix\<close> characters of the three random octets.
\<close>

theorem macaddress_layout:
  assumes "priv_get_phone_data self phonenumber d = Inr r"
    and "bb_mac_prefix (device r) = Some p"
    and "8 \<le> length p"
    and "length p \<le> 16"
    and "mac_prefix_shaped p"
  shows "length (cc_macaddress r) = 17
         \<and> mac_shaped (cc_macaddress r)
         \<and> take (length p) (cc_macaddress r) = upper p
         \<and> drop (length p) (cc_macaddress r)
             = upper (drop (length p - 8)
                        (random_octets (octet1_draw d) (octet2_draw d) (octet3_draw d)))"
proof -
  let ?o = "random_octets (octet1_draw d) (octet2_draw d) (octet3_draw d)"
  let ?t = "upper (drop (length p - 8) ?o)"
  from assms(1) have "\<exists>pre. bb_mac_prefix (device r) = Some pre
      \<and> cc_macaddress r = macaddress_of pre (octet1_draw d) (octet2_draw d) (octet3_draw d)"
    by (rule priv_get_phone_data_Inr) simp
  with assms(2) have "cc_macaddress r = macaddress_of p (octet1_draw d) (octet2_draw d) (octet3_draw d)"
    by auto
  with assms(3,4) have m: "cc_macaddress r = upper p @ ?t"
    by (simp add: macaddress_of_eq)
  from assms(3,4) have len: "length (cc_macaddress r) = 17"
    by (simp add: m length_upper length_random_octets)
  have "mac_layout ''0123456789ABCDEF'' (8 + (length p - 8)) (drop (length p - 8) (upper ?o))"
    by (rule mac_layout_drop) (rule layout_random_octets)
  with assms(3) have tail: "mac_layout ''0123456789ABCDEF'' (length p) ?t"
    by (simp add: upper_def drop_map)
  from assms(5) have "mac_layout ''0123456789ABCDEF'' 0 (upper p)"
    unfolding mac_prefix_shaped_def by (rule mac_layout_upper)
  with tail have "mac_layout ''0123456789ABCDEF'' 0 (cc_macaddress r)"
    by (simp add: m mac_layout_append length_upper)
  with len have "mac_shaped (cc_macaddress r)"
    by (simp add: mac_shaped_def)
  with len show ?thesis
    by (simp add: m length_upper)
qed

theorem macaddress_layout_witness:
  "priv_get_phone_data example_phone (Some ''24970368714'') example_draw = Inr example_identity
   \<and> bb_mac_prefix (device example_identity) = Some ''00:0A:00''
   \<and> mac_prefix_shaped ''00:0A:00''
   \<and> length (cc_macaddress example_identity) = 17
   \<and> mac_shaped (cc_macaddress example_identity)
   \<and> cc_macaddress example_identity = ''00:0A:00:29:F4:CA''"
proof -
  have p: "bb_mac_prefix (device example_identity) = Some ''00:0A:00''"
    by (simp add: example_identity_def example_device_def)
  have s: "mac_prefix_shaped ''00:0A:00''"
    by (simp add: mac_prefix_shaped_def)
  have l: "8 \<le> length ''00:0A:00''" "length ''00:0A:00'' \<le> 16"
    by simp_all
  from macaddress_layout[OF example_row p l s]
  have "length (cc_macaddress example_identity) = 17 \<and> mac_shaped (cc_macaddress example_identity)"
    by blast
  moreover have "cc_macaddress example_identity = ''00:0A:00:29:F4:CA''"
    by (simp add: example_identity_def)
  ultimately show ?thesis using example_row p s by blast
qed

text \<open>Every generated record comes from a device row that has a MAC prefix.\<close>

lemma generated_record_has_prefix:
  assumes "priv_get_phone_data self phonenumber d = Inr r"
  shows "\<exists>p. bb_mac_prefix (device r) = Some p"
  using assms by (rule priv_get_phone_data_Inr) simp

section \<open>When an attempt succeeds\<close>

lemma digits_iff: "digits s \<longleftrightarrow> set s \<subseteq> set default_alphabet"
  unfolding digits_def isdigit_def default_alphabet_def list_all_iff by blast

lemma digits_append: "digits (xs @ ys) \<longleftrightarrow> digits xs \<and> digits ys"
  by (simp add: digits_def)

lemma digits_take: "digits xs \<Longrightarrow> digits (take n xs)"
  unfolding digits_def list_all_iff using set_take_subset[of n xs] by blast

lemma digits_zeros: "digits (replicate n (CHR ''0''))"
  by (simp add: digits_def list_all_iff isdigit_def)

lemma digit_nth: "k < 10 \<Longrightarrow> isdigit (''0123456789'' ! k)"
  unfolding isdigit_def by (rule nth_mem) simp

lemma digits_str_nat: "digits (str_nat n)"
proof (induction n rule: str_nat.induct)
  case (1 n)
  show ?case
  proof (cases "n < 10")
    case True
    then show ?thesis by (simp add: str_nat.simps[of n] digits_def digit_nth)
  next
    case False
    have "isdigit (''0123456789'' ! (n mod 10))" by (rule digit_nth) simp
    with False "1.IH" show ?thesis by (simp add: str_nat.simps[of n] digits_def)
  qed
qed

lemma digits_zfill: "digits s \<Longrightarrow> digits (zfill w s)"
  by (auto simp: zfill_def digits_append digits_zeros split: list.splits)
    (simp_all add: digits_def digits_zeros[unfolded digits_def])

lemma digits_imei_body: "digits tac \<Longrightarrow> digits (imei_body tac r)"
  unfolding imei_body_def
  by (intro digits_take) (simp add: digits_append digits_zfill digits_str_nat)

lemma digits_iccid_body:
  assumes "digits line" "digits mnc" "digits pn"
  shows "digits (iccid_body line mnc pn)"
proof -
  have "digits ''89''" by (simp add: digits_def isdigit_def)
  moreover from assms(1) have "digits (take 6 (line @ replicate 6 (CHR ''0'')))"
    by (intro digits_take) (simp add: digits_append digits_zeros)
  moreover from assms(3) have "digits (take 10 (pn @ replicate 12 (CHR ''0'')))"
    by (intro digits_take) (simp add: digits_append digits_zeros)
  ultimately show ?thesis
    unfolding iccid_body_def using assms(2)
    by (intro digits_take) (simp only: digits_append simp_thms)
qed

lemma digits_phone_number: "priv_get_phone_number self p d = Inr pn \<Longrightarrow> digits pn"
  by (auto simp: priv_get_phone_number_def strip_non_digits_def digits_def list_all_iff
      split: if_splits sum.splits)

lemma sample_mem: "rows \<noteq> [] \<Longrightarrow> \<exists>row \<in> set rows. sample rows k = Inr row"
  by (simp add: sample_def)

text \<open>
  With a phone number to build, two tables that are not empty, and digit strings in the
  columns \<open>tac\<close>, \<open>line\<close> and \<open>mnc\<close>, every attempt returns a record.
\<close>

lemma priv_get_phone_data_succeeds:
  assumes "priv_get_phone_number self p d = Inr pn"
    and "df self \<noteq> []" and "df2 self \<noteq> []"
    and "\<forall>row \<in> set (df self). digits (bb_tac1 row) \<and> bb_mac_prefix row \<noteq> None"
    and "\<forall>row \<in> set (df2 self). digits (aa_line row) \<and> digits (aa_mnc row)"
  shows "\<exists>r. priv_get_phone_data self p d = Inr r"
proof -
  from assms(2,4) obtain sa2 pre where sa2: "sample (df self) (device_draw d) = Inr sa2"
    "digits (bb_tac1 sa2)" "bb_mac_prefix sa2 = Some pre"
    using sample_mem[of "df self" "device_draw d"] by blast
  from assms(3,5) obtain sa where sa: "sample (df2 self) (operator_draw d) = Inr sa"
    "digits (aa_line sa)" "digits (aa_mnc sa)"
    using sample_mem[of "df2 self" "operator_draw d"] by blast
  have "digits (imei_body (bb_tac1 sa2) (imei_draw d))"
    using sa2(2) by (rule digits_imei_body)
  then obtain c1 where c1:
    "calc_check_digit (imei_body (bb_tac1 sa2) (imei_draw d)) default_alphabet = Inr [c1]"
    using luhn_default unfolding digits_iff by blast
  have "digits (iccid_body (aa_line sa) (aa_mnc sa) pn)"
    using sa(2,3) digits_phone_number[OF assms(1)] by (rule digits_iccid_body)
  then obtain c2 where c2:
    "calc_check_digit (iccid_body (aa_line sa) (aa_mnc sa) pn) default_alphabet = Inr [c2]"
    using luhn_default unfolding digits_iff by blast
  show ?thesis
    by (simp add: priv_get_phone_data_def assms(1) sa2(1,3) sa(1) c1 c2)
qed

section \<open>When every attempt fails\<close>

text \<open>
  If no draw lets an attempt succeed, then for a count \<open>qty \<ge> 1\<close> no list of draws lets
  the call return.
\<close>

lemma get_phone_data_never_returns:
  assumes "1 \<le> qty" and "\<And>d. \<exists>e. priv_get_phone_data self p d = Inl e"
  shows "get_phone_data self p qty draws = None"
proof -
  from assms(2) have "successful self p draws = []" by (rule successful_Nil)
  with assms(1) show ?thesis by (simp add: get_phone_data_def collect_eq)
qed

text \<open>A device table whose rows all lack the MAC prefix is such a case.\<close>

lemma missing_prefix_always_fails:
  assumes "\<forall>row \<in> set (df self). bb_mac_prefix row = None"
  shows "\<exists>e. priv_get_phone_data self p d = Inl e"
proof (cases "priv_get_phone_data self p d")
  case (Inl e)
  then show ?thesis by blast
next
  case (Inr r)
  then obtain sa2 pre where "sample (df self) (device_draw d) = Inr sa2"
    "bb_mac_prefix sa2 = Some pre"
    by (rule priv_get_phone_data_Inr)
  moreover from this(1) have "sa2 \<in> set (df self)"
    by (auto simp: sample_def split: if_splits)
  ultimately show ?thesis using assms by auto
qed

end
